theory Spec2Isabelle
  imports Main
begin

section \<open>The scene host\<close>

text \<open>
  Both \<^verbatim>\<open>tahlia_core.py\<close> and \<^verbatim>\<open>tahlia_bridge.py\<close> work on the ambient state of
  the 3D application through its scripting module \<^verbatim>\<open>bpy\<close>. The module is not part of
  the repository, so the host is a record holding exactly the pieces of state that
  \<^verbatim>\<open>capture_context\<close> reads and \<^verbatim>\<open>restore_context\<close> writes, together with the list
  of host calls that raise in the current state of the application (and the message of
  the exception each one raises). Nothing is assumed about which calls those are: the
  host is authoritative.

  Every exception of the model derives from Python's \<^verbatim>\<open>Exception\<close>, the class the
  handlers of the source catch; it carries the text that \<^verbatim>\<open>str(e)\<close> yields.
\<close>

datatype exn = Exception string

datatype call =
    Read_selected_objects
  | Read_active_object
  | Read_view_layer
  | Read_mode
  | Read_collections
  | Read_is_rendering
  | Read_scene
  | Set_active string
  | Select_all
  | Select_set string
  | Mode_set string
  | Set_shading string

record host =
  data_objects :: "string list"
  sel_objects :: "string list"
  act_object :: "string option"
  view_layer_name :: string
  context_mode :: string
  space_shading :: "string option"
  space_wireframes :: "bool option"
  scene_children :: "(string \<times> bool) list"
  render_is_rendering :: bool
  scene_name :: string
  scene_frame_current :: int
  render_engine :: string
  raises :: "(call \<times> string) list"

text \<open>
  \<open>data_objects\<close> are the names in \<^verbatim>\<open>bpy.data.objects\<close>, \<open>sel_objects\<close> the names of
  the selected objects, \<open>act_object\<close> the name of \<^verbatim>\<open>bpy.context.active_object\<close> (or
  \<open>None\<close>). \<open>space_shading\<close> is \<^verbatim>\<open>bpy.context.space_data.shading.type\<close>, and \<open>None\<close>
  when \<^verbatim>\<open>space_data\<close> has no attribute \<^verbatim>\<open>shading\<close> (no 3D viewport is active);
  \<open>space_wireframes\<close> is \<^verbatim>\<open>space_data.overlay.show_wireframes\<close>, and \<open>None\<close> when
  that attribute chain cannot be read. \<open>scene_children\<close> are the children of
  \<^verbatim>\<open>bpy.context.scene.collection\<close>, each with its name and its \<^verbatim>\<open>hide_viewport\<close>
  flag.
\<close>

subsection \<open>Reads\<close>

definition guard :: "host \<Rightarrow> call \<Rightarrow> 'a \<Rightarrow> exn + 'a" where
  "guard h c v = (case map_of (raises h) c of Some msg \<Rightarrow> Inl (Exception msg) | None \<Rightarrow> Inr v)"

definition read_selected_objects :: "host \<Rightarrow> exn + string list" where
  "read_selected_objects h = guard h Read_selected_objects (sel_objects h)"

definition read_active_object :: "host \<Rightarrow> exn + string option" where
  "read_active_object h = guard h Read_active_object (act_object h)"

definition read_view_layer :: "host \<Rightarrow> exn + string" where
  "read_view_layer h = guard h Read_view_layer (view_layer_name h)"

definition read_mode :: "host \<Rightarrow> exn + string" where
  "read_mode h = guard h Read_mode (context_mode h)"

definition read_collections :: "host \<Rightarrow> exn + (string \<times> bool) list" where
  "read_collections h = guard h Read_collections (scene_children h)"

definition read_is_rendering :: "host \<Rightarrow> exn + bool" where
  "read_is_rendering h = guard h Read_is_rendering (render_is_rendering h)"

definition read_wireframes :: "host \<Rightarrow> exn + bool" where
  "read_wireframes h =
     (case space_wireframes h of
        None \<Rightarrow> Inl (Exception ''object has no attribute overlay'')
      | Some b \<Rightarrow> Inr b)"

definition has_shading :: "host \<Rightarrow> bool" where
  "has_shading h = (space_shading h \<noteq> None)"

definition try_bind :: "exn + 'a \<Rightarrow> ('a \<Rightarrow> exn + 'b) \<Rightarrow> exn + 'b" where
  "try_bind r f = (case r of Inl e \<Rightarrow> Inl e | Inr v \<Rightarrow> f v)"

subsection \<open>Writes\<close>

text \<open>
  A write either raises, leaving the host as it was, or takes effect. A step of a
  restoration returns the exception it raised, if any, and the host it reached: what was
  written before an exception stays written.
\<close>

type_synonym step = "host \<Rightarrow> exn option \<times> host"

definition prim :: "call \<Rightarrow> (host \<Rightarrow> host) \<Rightarrow> step" where
  "prim c f h = (case map_of (raises h) c of Some msg \<Rightarrow> (Some (Exception msg), h) | None \<Rightarrow> (None, f h))"

definition set_active :: "string \<Rightarrow> step" where
  "set_active n = prim (Set_active n) (\<lambda>h. h\<lparr>act_object := Some n\<rparr>)"

definition select_all_deselect :: step where
  "select_all_deselect = prim Select_all (\<lambda>h. h\<lparr>sel_objects := []\<rparr>)"

definition select_set_true :: "string \<Rightarrow> step" where
  "select_set_true n =
     prim (Select_set n)
       (\<lambda>h. if n \<in> set (sel_objects h) then h else h\<lparr>sel_objects := sel_objects h @ [n]\<rparr>)"

definition mode_set :: "string \<Rightarrow> step" where
  "mode_set m = prim (Mode_set m) (\<lambda>h. h\<lparr>context_mode := m\<rparr>)"

definition set_shading :: "string \<Rightarrow> step" where
  "set_shading s = prim (Set_shading s) (\<lambda>h. h\<lparr>space_shading := Some s\<rparr>)"

definition seq :: "step \<Rightarrow> step \<Rightarrow> step" where
  "seq f g h = (case f h of (None, h') \<Rightarrow> g h' | (Some e, h') \<Rightarrow> (Some e, h'))"

section \<open>Snapshots\<close>

text \<open>
  A snapshot is the dictionary that \<^verbatim>\<open>capture_context\<close> builds. Every key may be
  missing: the empty dictionary is what a failed capture returns, and
  \<^verbatim>\<open>restore_context\<close> reads every key with \<^verbatim>\<open>get\<close>.
\<close>

record viewport =
  vp_shading :: "string option"
  vp_overlay :: "string option"

record ctx =
  selected_objects :: "string list option"
  active_object :: "string option"
  view_layer :: "string option"
  mode :: "string option"
  viewport_settings :: "viewport option"
  visible_collections :: "string list option"
  is_rendering :: "bool option"
  custom_state :: "(string \<times> string) list option"

definition empty_ctx :: ctx where
  "empty_ctx = \<lparr>selected_objects = None, active_object = None, view_layer = None, mode = None,
     viewport_settings = None, visible_collections = None, is_rendering = None,
     custom_state = None\<rparr>"

text \<open>Python's truth value of \<^verbatim>\<open>d.get(key)\<close>: false for a missing key and for an empty value.\<close>

definition truthy :: "'a list option \<Rightarrow> bool" where
  "truthy v = (case v of None \<Rightarrow> False | Some xs \<Rightarrow> xs \<noteq> [])"

definition truthy_viewport :: "viewport option \<Rightarrow> bool" where
  "truthy_viewport v =
     (case v of None \<Rightarrow> False | Some s \<Rightarrow> vp_shading s \<noteq> None \<or> vp_overlay s \<noteq> None)"

definition visible_names :: "(string \<times> bool) list \<Rightarrow> string list" where
  "visible_names cs = map fst (filter (\<lambda>c. \<not> snd c) cs)"

section \<open>TahliaCore\<close>

record core =
  context_stack :: "ctx list"
  debug_mode :: bool
  context_preservation :: bool
  max_context_stack_size :: int

definition core_capture_body :: "host \<Rightarrow> exn + ctx" where
  "core_capture_body h =
     try_bind (read_selected_objects h) (\<lambda>sel.
     try_bind (read_active_object h) (\<lambda>act.
     try_bind (read_view_layer h) (\<lambda>vl.
     try_bind (read_mode h) (\<lambda>md.
     try_bind (read_wireframes h) (\<lambda>w.
     try_bind (read_collections h) (\<lambda>cs.
     try_bind (read_is_rendering h) (\<lambda>rd.
       Inr \<lparr>selected_objects = Some sel,
            active_object = Some (case act of None \<Rightarrow> [] | Some n \<Rightarrow> n),
            view_layer = Some vl,
            mode = Some md,
            viewport_settings = Some
              \<lparr>vp_shading = Some (case space_shading h of Some s \<Rightarrow> s | None \<Rightarrow> ''SOLID''),
               vp_overlay = Some (if w then ''WIREFRAME'' else ''SOLID'')\<rparr>,
            visible_collections = Some (visible_names cs),
            is_rendering = Some rd,
            custom_state = Some []\<rparr>)))))))"

definition core_capture_context :: "host \<Rightarrow> ctx" where
  "core_capture_context h = (case core_capture_body h of Inr c \<Rightarrow> c | Inl e \<Rightarrow> empty_ctx)"

definition restore_active :: "ctx \<Rightarrow> step" where
  "restore_active c h =
     (if truthy (active_object c) then
        (if the (active_object c) \<in> set (data_objects h) then set_active (the (active_object c)) h
         else (None, h))
      else (None, h))"

fun select_each :: "string list \<Rightarrow> step" where
  "select_each [] h = (None, h)"
| "select_each (n # ns) h =
     (if n \<in> set (data_objects h) then
        (case select_set_true n h of
           (None, h') \<Rightarrow> select_each ns h'
         | (Some e, h') \<Rightarrow> (Some e, h'))
      else select_each ns h)"

definition core_restore_selected :: "ctx \<Rightarrow> step" where
  "core_restore_selected c h =
     (if truthy (selected_objects c) then select_each (the (selected_objects c)) h
      else (None, h))"

definition restore_mode :: "ctx \<Rightarrow> step" where
  "restore_mode c h =
     (if truthy (mode c) then
        (case read_active_object h of
           Inl e \<Rightarrow> (Some e, h)
         | Inr a \<Rightarrow> (if a \<noteq> None then (None, snd (mode_set (the (mode c)) h)) else (None, h)))
      else (None, h))"

definition core_restore_viewport :: "ctx \<Rightarrow> step" where
  "core_restore_viewport c h =
     (if has_shading h \<and> truthy_viewport (viewport_settings c) then
        (case vp_shading (the (viewport_settings c)) of
           Some s \<Rightarrow> set_shading s h
         | None \<Rightarrow> (None, h))
      else (None, h))"

definition core_restore_body :: "ctx \<Rightarrow> step" where
  "core_restore_body c =
     seq (restore_active c)
       (seq (core_restore_selected c)
          (seq (restore_mode c) (core_restore_viewport c)))"

definition core_restore_context :: "ctx \<Rightarrow> host \<Rightarrow> bool \<times> host" where
  "core_restore_context c h =
     (case core_restore_body c h of (None, h') \<Rightarrow> (True, h') | (Some e, h') \<Rightarrow> (False, h'))"

definition core_push_context :: "('a core_scheme) \<Rightarrow> host \<Rightarrow> bool \<times> ('a core_scheme)" where
  "core_push_context m h =
     (if int (length (context_stack m)) < max_context_stack_size m then
        (True, m\<lparr>context_stack := context_stack m @ [core_capture_context h]\<rparr>)
      else (False, m))"

definition core_pop_context ::
  "('a core_scheme) \<Rightarrow> host \<Rightarrow> bool \<times> ('a core_scheme) \<times> host" where
  "core_pop_context m h =
     (if context_stack m \<noteq> [] then
        (let c = last (context_stack m);
             m' = m\<lparr>context_stack := butlast (context_stack m)\<rparr>;
             (ok, h') = core_restore_context c h
         in (ok, m', h'))
      else (False, m, h))"

definition clear_context_stack :: "('a core_scheme) \<Rightarrow> ('a core_scheme)" where
  "clear_context_stack m = m\<lparr>context_stack := []\<rparr>"

definition set_context_preservation :: "('a core_scheme) \<Rightarrow> bool \<Rightarrow> ('a core_scheme)" where
  "set_context_preservation m enable = m\<lparr>context_preservation := enable\<rparr>"

definition set_max_context_stack_size :: "('a core_scheme) \<Rightarrow> int \<Rightarrow> ('a core_scheme)" where
  "set_max_context_stack_size m max_size = m\<lparr>max_context_stack_size := max_size\<rparr>"

text \<open>
  The operation handed to \<^verbatim>\<open>preserve_context\<close> is any step on the host. The result is
  \<open>Inl e\<close> when the exception \<open>e\<close> leaves \<^verbatim>\<open>preserve_context\<close> and reaches the caller.
\<close>

definition core_preserve_context ::
  "('a core_scheme) \<Rightarrow> step \<Rightarrow> host \<Rightarrow> (exn + bool) \<times> host" where
  "core_preserve_context m operation h =
     (if \<not> context_preservation m then
        (case operation h of
           (None, h') \<Rightarrow> (Inr True, h')
         | (Some e, h') \<Rightarrow> (Inl e, h'))
      else
        (let saved_context = core_capture_context h in
         case operation h of
           (None, h') \<Rightarrow>
             (let (ok, h'') = core_restore_context saved_context h' in (Inr ok, h''))
         | (Some e, h') \<Rightarrow>
             (let (ok, h'') = core_restore_context saved_context h' in (Inr False, h''))))"

section \<open>TahliaBridge\<close>

text \<open>
  \<^verbatim>\<open>TahliaBridge\<close> has the fields of \<^verbatim>\<open>TahliaCore\<close> that the context stack uses, and
  \<^verbatim>\<open>last_error\<close>. The setters and \<^verbatim>\<open>clear_context_stack\<close> have the same bodies
  in both classes.
\<close>

record bridge = core +
  last_error :: string

definition read_scene :: "host \<Rightarrow> exn + (string \<times> int \<times> string)" where
  "read_scene h = guard h Read_scene (scene_name h, scene_frame_current h, render_engine h)"

fun str_nat :: "nat \<Rightarrow> string" where
  "str_nat n =
     (if n < 10 then [char_of (48 + n)] else str_nat (n div 10) @ [char_of (48 + n mod 10)])"

definition str_int :: "int \<Rightarrow> string" where
  "str_int i = (if i < 0 then CHR ''-'' # str_nat (nat (- i)) else str_nat (nat i))"

definition capture_viewport_settings :: "host \<Rightarrow> viewport" where
  "capture_viewport_settings h =
     \<lparr>vp_shading = space_shading h,
      vp_overlay =
        (case read_wireframes h of
           Inr w \<Rightarrow> Some (if w then ''WIREFRAME'' else ''SOLID'')
         | Inl e \<Rightarrow> None)\<rparr>"

definition capture_visible_collections :: "host \<Rightarrow> string list" where
  "capture_visible_collections h =
     (case read_collections h of Inr cs \<Rightarrow> visible_names cs | Inl e \<Rightarrow> [])"

definition capture_custom_state :: "host \<Rightarrow> (string \<times> string) list" where
  "capture_custom_state h =
     (case read_scene h of
        Inr (nm, fr, eng) \<Rightarrow>
          [(''scene_name'', nm), (''frame_current'', str_int fr), (''render_engine'', eng)]
      | Inl e \<Rightarrow> [])"

definition bridge_capture_body :: "host \<Rightarrow> exn + ctx" where
  "bridge_capture_body h =
     try_bind (read_selected_objects h) (\<lambda>sel.
     try_bind (read_active_object h) (\<lambda>act.
     try_bind (read_view_layer h) (\<lambda>vl.
     try_bind (read_mode h) (\<lambda>md.
     try_bind (read_is_rendering h) (\<lambda>rd.
       Inr \<lparr>selected_objects = Some sel,
            active_object = Some (case act of None \<Rightarrow> [] | Some n \<Rightarrow> n),
            view_layer = Some vl,
            mode = Some md,
            viewport_settings = Some (capture_viewport_settings h),
            visible_collections = Some (capture_visible_collections h),
            is_rendering = Some rd,
            custom_state = Some (capture_custom_state h)\<rparr>)))))"

definition bridge_capture_context :: "bridge \<Rightarrow> host \<Rightarrow> ctx \<times> bridge" where
  "bridge_capture_context m h =
     (case bridge_capture_body h of
        Inr c \<Rightarrow> (c, m)
      | Inl (Exception msg) \<Rightarrow>
          (empty_ctx, m\<lparr>last_error := ''Failed to capture context: '' @ msg\<rparr>))"

definition bridge_restore_selected :: "ctx \<Rightarrow> step" where
  "bridge_restore_selected c h =
     (if truthy (selected_objects c) then
        seq select_all_deselect (select_each (the (selected_objects c))) h
      else (None, h))"

definition restore_viewport_settings :: "viewport \<Rightarrow> host \<Rightarrow> host" where
  "restore_viewport_settings settings h =
     (if has_shading h \<and> vp_shading settings \<noteq> None then
        snd (set_shading (the (vp_shading settings)) h)
      else h)"

definition restore_visible_collections :: "string list \<Rightarrow> host \<Rightarrow> host" where
  "restore_visible_collections cols h =
     (case read_collections h of
        Inr cs \<Rightarrow> h\<lparr>scene_children := map (\<lambda>col. (fst col, fst col \<notin> set cols)) cs\<rparr>
      | Inl e \<Rightarrow> h)"

definition get_viewport_settings :: "ctx \<Rightarrow> viewport" where
  "get_viewport_settings c =
     (case viewport_settings c of Some s \<Rightarrow> s | None \<Rightarrow> \<lparr>vp_shading = None, vp_overlay = None\<rparr>)"

definition get_visible_collections :: "ctx \<Rightarrow> string list" where
  "get_visible_collections c = (case visible_collections c of Some cs \<Rightarrow> cs | None \<Rightarrow> [])"

definition bridge_restore_body :: "ctx \<Rightarrow> step" where
  "bridge_restore_body c =
     seq (restore_active c)
       (seq (bridge_restore_selected c)
          (seq (restore_mode c)
             (\<lambda>h. (None,
                restore_visible_collections (get_visible_collections c)
                  (restore_viewport_settings (get_viewport_settings c) h)))))"

definition bridge_restore_context :: "bridge \<Rightarrow> ctx \<Rightarrow> host \<Rightarrow> bool \<times> bridge \<times> host" where
  "bridge_restore_context m c h =
     (case bridge_restore_body c h of
        (None, h') \<Rightarrow> (True, m, h')
      | (Some (Exception msg), h') \<Rightarrow>
          (False, m\<lparr>last_error := ''Failed to restore context: '' @ msg\<rparr>, h'))"

definition bridge_push_context :: "bridge \<Rightarrow> host \<Rightarrow> bool \<times> bridge" where
  "bridge_push_context m h =
     (if int (length (context_stack m)) < max_context_stack_size m then
        (let (c, m') = bridge_capture_context m h
         in (True, m'\<lparr>context_stack := context_stack m' @ [c]\<rparr>))
      else (False, m))"

definition bridge_pop_context :: "bridge \<Rightarrow> host \<Rightarrow> bool \<times> bridge \<times> host" where
  "bridge_pop_context m h =
     (if context_stack m \<noteq> [] then
        bridge_restore_context (m\<lparr>context_stack := butlast (context_stack m)\<rparr>)
          (last (context_stack m)) h
      else (False, m, h))"

definition get_context_stack_size :: "('a core_scheme) \<Rightarrow> nat" where
  "get_context_stack_size m = length (context_stack m)"

definition bridge_preserve_context ::
  "bridge \<Rightarrow> step \<Rightarrow> host \<Rightarrow> (exn + bool) \<times> bridge \<times> host" where
  "bridge_preserve_context m operation h =
     (if \<not> context_preservation m then
        (case operation h of
           (None, h') \<Rightarrow> (Inr True, m, h')
         | (Some (Exception msg), h') \<Rightarrow>
             (Inr False, m\<lparr>last_error := ''Operation failed: '' @ msg\<rparr>, h'))
      else
        (let (saved_context, m1) = bridge_capture_context m h in
         case operation h of
           (None, h') \<Rightarrow>
             (let (ok, m2, h'') = bridge_restore_context m1 saved_context h'
              in (Inr ok, m2, h''))
         | (Some (Exception msg), h') \<Rightarrow>
             (let (ok, m2, h'') =
                    bridge_restore_context (m1\<lparr>last_error := ''Operation failed: '' @ msg\<rparr>)
                      saved_context h'
              in (Inr False, m2, h''))))"

section \<open>Fixtures\<close>

text \<open>
  The managers as their constructors leave them, the scene that
  \<^verbatim>\<open>Tests/test_python_bridge_full.py\<close> builds (a cube, a sphere and a cone, the cone
  selected and active after it was added), and a caller that pushes once per host state
  it passes through.
\<close>

definition core0 :: core where
  "core0 = \<lparr>context_stack = [], debug_mode = False, context_preservation = True,
     max_context_stack_size = 10\<rparr>"

definition bridge0 :: bridge where
  "bridge0 = \<lparr>context_stack = [], debug_mode = False, context_preservation = True,
     max_context_stack_size = 10, last_error = []\<rparr>"

definition scene0 :: host where
  "scene0 = \<lparr>data_objects = [''TestCube'', ''TestSphere'', ''TestCone''],
     sel_objects = [''TestCone''], act_object = Some ''TestCone'',
     view_layer_name = ''ViewLayer'', context_mode = ''OBJECT'',
     space_shading = Some ''SOLID'', space_wireframes = Some False,
     scene_children = [(''Props'', False), (''Lights'', False)],
     render_is_rendering = False, scene_name = ''Scene'', scene_frame_current = 1,
     render_engine = ''CYCLES'', raises = []\<rparr>"

fun push_all :: "('m \<Rightarrow> host \<Rightarrow> bool \<times> 'm) \<Rightarrow> 'm \<Rightarrow> host list \<Rightarrow> bool list \<times> 'm" where
  "push_all push m [] = ([], m)"
| "push_all push m (h # hs) =
     (let (ok, m') = push m h; (oks, m'') = push_all push m' hs in (ok # oks, m''))"

definition cube_sphere :: ctx where
  "cube_sphere = empty_ctx\<lparr>selected_objects := Some [''TestCube'', ''TestSphere''],
     active_object := Some ''TestCube''\<rparr>"

definition failing_operation :: step where
  "failing_operation h = (Some (Exception ''import failed''), h\<lparr>sel_objects := [''TestCube'']\<rparr>)"

definition select_cube :: step where
  "select_cube h = (None, h\<lparr>sel_objects := [''TestCube''], act_object := Some ''TestCube''\<rparr>)"

definition props_only :: ctx where
  "props_only = cube_sphere\<lparr>visible_collections := Some [''Props'']\<rparr>"

definition nothing_selected :: ctx where
  "nothing_selected = cube_sphere\<lparr>selected_objects := Some []\<rparr>"

definition restricted_scene :: host where
  "restricted_scene =
     scene0\<lparr>raises := [(Read_selected_objects, ''Context object has no attribute selected_objects'')]\<rparr>"

definition no_active_scene :: host where
  "no_active_scene = scene0\<lparr>sel_objects := [], act_object := None\<rparr>"

definition text_editor_scene :: host where
  "text_editor_scene = scene0\<lparr>space_shading := None, space_wireframes := None\<rparr>"

section \<open>The steps of a restoration\<close>

lemma seq_result:
  "fst (seq f g h) = (if fst (f h) = None then fst (g (snd (f h))) else fst (f h))"
  "snd (seq f g h) = (if fst (f h) = None then snd (g (snd (f h))) else snd (f h))"
  by (auto simp: seq_def split: prod.splits option.splits)

lemma prim_result:
  "fst (prim c f h) = map_option Exception (map_of (raises h) c)"
  "snd (prim c f h) = (if map_of (raises h) c = None then f h else h)"
  by (auto simp: prim_def split: option.splits)

lemma restore_active_frame:
  "sel_objects (snd (restore_active c h)) = sel_objects h"
  "scene_children (snd (restore_active c h)) = scene_children h"
  "data_objects (snd (restore_active c h)) = data_objects h"
  "raises (snd (restore_active c h)) = raises h"
  by (simp_all add: restore_active_def set_active_def prim_result)

lemma restore_active_act_object:
  "act_object (snd (restore_active c h)) =
     (if truthy (active_object c) \<and> the (active_object c) \<in> set (data_objects h) \<and>
         map_of (raises h) (Set_active (the (active_object c))) = None
      then active_object c else act_object h)"
  by (auto simp: restore_active_def set_active_def prim_result truthy_def split: option.splits)

lemma select_set_true_result:
  "fst (select_set_true n h) = map_option Exception (map_of (raises h) (Select_set n))"
  "set (sel_objects (snd (select_set_true n h))) =
     (if map_of (raises h) (Select_set n) = None then insert n (set (sel_objects h))
      else set (sel_objects h))"
  "act_object (snd (select_set_true n h)) = act_object h"
  "scene_children (snd (select_set_true n h)) = scene_children h"
  "data_objects (snd (select_set_true n h)) = data_objects h"
  "raises (snd (select_set_true n h)) = raises h"
  by (auto simp: select_set_true_def prim_result)

lemma select_set_true_selected:
  "n \<in> set (sel_objects h) \<Longrightarrow> snd (select_set_true n h) = h"
  by (simp add: select_set_true_def prim_result)

lemma select_each_Cons:
  "select_each (n # ns) h =
     (if n \<in> set (data_objects h) then
        (if fst (select_set_true n h) = None then select_each ns (snd (select_set_true n h))
         else select_set_true n h)
      else select_each ns h)"
  by (auto split: prod.splits option.splits)

lemma select_each_frame:
  "act_object (snd (select_each ns h)) = act_object h"
  "scene_children (snd (select_each ns h)) = scene_children h"
  "data_objects (snd (select_each ns h)) = data_objects h"
  "raises (snd (select_each ns h)) = raises h"
  by (induction ns arbitrary: h;
      simp add: select_each_Cons select_set_true_result del: select_each.simps(2))+

lemma select_each_grows:
  "set (sel_objects h) \<subseteq> set (sel_objects (snd (select_each ns h)))"
proof (induction ns arbitrary: h)
  case Nil
  show ?case by simp
next
  case (Cons n ns)
  show ?case
    using Cons.IH [of h] Cons.IH [of "snd (select_set_true n h)"]
    by (auto simp: select_each_Cons select_set_true_result simp del: select_each.simps(2)
          split: if_splits)
qed

lemma select_each_bound:
  "set (sel_objects (snd (select_each ns h))) \<subseteq>
     set (sel_objects h) \<union> (set ns \<inter> set (data_objects h))"
proof (induction ns arbitrary: h)
  case Nil
  show ?case by simp
next
  case (Cons n ns)
  show ?case
    using Cons.IH [of h] Cons.IH [of "snd (select_set_true n h)"]
    by (auto simp: select_each_Cons select_set_true_result simp del: select_each.simps(2)
          split: if_splits)
qed

lemma select_each_exact:
  "\<forall>n \<in> set ns \<inter> set (data_objects h). map_of (raises h) (Select_set n) = None \<Longrightarrow>
   fst (select_each ns h) = None \<and>
   set (sel_objects (snd (select_each ns h))) =
     set (sel_objects h) \<union> (set ns \<inter> set (data_objects h))"
proof (induction ns arbitrary: h)
  case Nil
  show ?case by simp
next
  case (Cons n ns)
  show ?case
  proof (cases "n \<in> set (data_objects h)")
    case True
    then have ok: "map_of (raises h) (Select_set n) = None"
      using Cons.prems by simp
    have "\<forall>k \<in> set ns \<inter> set (data_objects (snd (select_set_true n h))).
            map_of (raises (snd (select_set_true n h))) (Select_set k) = None"
      using Cons.prems by (simp add: select_set_true_result)
    from Cons.IH [OF this] True ok show ?thesis
      by (auto simp: select_each_Cons select_set_true_result simp del: select_each.simps(2))
  next
    case False
    have "\<forall>k \<in> set ns \<inter> set (data_objects h). map_of (raises h) (Select_set k) = None"
      using Cons.prems by simp
    from Cons.IH [OF this] False show ?thesis
      by (auto simp: select_each_Cons simp del: select_each.simps(2))
  qed
qed

lemma select_each_selected:
  "set ns \<subseteq> set (sel_objects h) \<Longrightarrow> snd (select_each ns h) = h"
  by (induction ns arbitrary: h)
     (simp_all add: select_each_Cons select_set_true_selected del: select_each.simps(2))

lemma restore_mode_frame:
  "sel_objects (snd (restore_mode c h)) = sel_objects h"
  "act_object (snd (restore_mode c h)) = act_object h"
  "scene_children (snd (restore_mode c h)) = scene_children h"
  "data_objects (snd (restore_mode c h)) = data_objects h"
  "raises (snd (restore_mode c h)) = raises h"
  by (simp_all add: restore_mode_def mode_set_def prim_result split: sum.splits)

lemma core_restore_viewport_frame:
  "sel_objects (snd (core_restore_viewport c h)) = sel_objects h"
  "act_object (snd (core_restore_viewport c h)) = act_object h"
  "scene_children (snd (core_restore_viewport c h)) = scene_children h"
  by (simp_all add: core_restore_viewport_def set_shading_def prim_result split: option.splits)

lemma restore_viewport_settings_frame:
  "sel_objects (restore_viewport_settings s h) = sel_objects h"
  "act_object (restore_viewport_settings s h) = act_object h"
  "scene_children (restore_viewport_settings s h) = scene_children h"
  "raises (restore_viewport_settings s h) = raises h"
  by (simp_all add: restore_viewport_settings_def set_shading_def prim_result)

lemma restore_visible_collections_frame:
  "sel_objects (restore_visible_collections cols h) = sel_objects h"
  "act_object (restore_visible_collections cols h) = act_object h"
  by (simp_all add: restore_visible_collections_def split: sum.splits)

lemma core_restore_selected_frame:
  "act_object (snd (core_restore_selected c h)) = act_object h"
  "scene_children (snd (core_restore_selected c h)) = scene_children h"
  "data_objects (snd (core_restore_selected c h)) = data_objects h"
  "raises (snd (core_restore_selected c h)) = raises h"
  by (simp_all add: core_restore_selected_def select_each_frame)

lemma bridge_restore_selected_frame:
  "act_object (snd (bridge_restore_selected c h)) = act_object h"
  "scene_children (snd (bridge_restore_selected c h)) = scene_children h"
  "data_objects (snd (bridge_restore_selected c h)) = data_objects h"
  "raises (snd (bridge_restore_selected c h)) = raises h"
  by (simp_all add: bridge_restore_selected_def seq_result select_each_frame
        select_all_deselect_def prim_result)

lemma core_restore_body_act_object:
  "act_object (snd (core_restore_body c h)) = act_object (snd (restore_active c h))"
  by (simp add: core_restore_body_def seq_result core_restore_selected_frame restore_mode_frame
        core_restore_viewport_frame)

lemma bridge_restore_body_act_object:
  "act_object (snd (bridge_restore_body c h)) = act_object (snd (restore_active c h))"
  by (simp add: bridge_restore_body_def seq_result bridge_restore_selected_frame restore_mode_frame
        restore_viewport_settings_frame restore_visible_collections_frame)

lemma core_restore_body_collections:
  "scene_children (snd (core_restore_body c h)) = scene_children h"
  by (simp add: core_restore_body_def seq_result core_restore_selected_frame restore_mode_frame
        core_restore_viewport_frame restore_active_frame)

lemma core_restore_body_keeps_selection:
  "set (sel_objects h) \<subseteq> set (sel_objects (snd (core_restore_body c h)))"
  using select_each_grows [of "snd (restore_active c h)" "the (selected_objects c)"]
  by (simp add: core_restore_body_def seq_result core_restore_selected_def restore_mode_frame
        core_restore_viewport_frame restore_active_frame)

lemma restore_visible_collections_result:
  "scene_children (restore_visible_collections cols h) =
     (if map_of (raises h) Read_collections = None
      then map (\<lambda>col. (fst col, fst col \<notin> set cols)) (scene_children h)
      else scene_children h)"
  by (simp add: restore_visible_collections_def read_collections_def guard_def
        split: option.splits)

lemma seq_None: "fst (f h) = None \<Longrightarrow> seq f g h = g (snd (f h))"
  by (cases "f h") (simp add: seq_def)

lemma seq_Some: "fst (f h) = Some e \<Longrightarrow> seq f g h = (Some e, snd (f h))"
  by (cases "f h") (simp add: seq_def)

lemma bridge_restore_body_cases:
  obtains (active) e where "fst (restore_active c h) = Some e"
      "bridge_restore_body c h = (Some e, snd (restore_active c h))"
  | (selected) e where "fst (restore_active c h) = None"
      "fst (bridge_restore_selected c (snd (restore_active c h))) = Some e"
      "bridge_restore_body c h =
         (Some e, snd (bridge_restore_selected c (snd (restore_active c h))))"
  | (mode) e where "fst (restore_active c h) = None"
      "fst (bridge_restore_selected c (snd (restore_active c h))) = None"
      "fst (restore_mode c (snd (bridge_restore_selected c (snd (restore_active c h))))) = Some e"
      "bridge_restore_body c h =
         (Some e, snd (restore_mode c (snd (bridge_restore_selected c (snd (restore_active c h))))))"
  | (finished) "fst (restore_active c h) = None"
      "fst (bridge_restore_selected c (snd (restore_active c h))) = None"
      "fst (restore_mode c (snd (bridge_restore_selected c (snd (restore_active c h))))) = None"
      "bridge_restore_body c h =
         (None, restore_visible_collections (get_visible_collections c)
            (restore_viewport_settings (get_viewport_settings c)
               (snd (restore_mode c (snd (bridge_restore_selected c (snd (restore_active c h))))))))"
proof (cases "fst (restore_active c h)")
  case (Some e)
  then show ?thesis using active by (simp add: bridge_restore_body_def seq_Some)
next
  case a: None
  show ?thesis
  proof (cases "fst (bridge_restore_selected c (snd (restore_active c h)))")
    case (Some e)
    then show ?thesis using a selected by (simp add: bridge_restore_body_def seq_Some seq_None)
  next
    case b: None
    show ?thesis
    proof (cases "fst (restore_mode c (snd (bridge_restore_selected c (snd (restore_active c h)))))")
      case (Some e)
      then show ?thesis using a b mode by (simp add: bridge_restore_body_def seq_Some seq_None)
    next
      case None
      then show ?thesis using a b finished by (simp add: bridge_restore_body_def seq_None)
    qed
  qed
qed

lemma bridge_restore_body_collections:
  "scene_children (snd (bridge_restore_body c h)) =
     (if fst (bridge_restore_body c h) = None \<and> map_of (raises h) Read_collections = None
      then map (\<lambda>col. (fst col, fst col \<notin> set (get_visible_collections c))) (scene_children h)
      else scene_children h)"
  by (cases c h rule: bridge_restore_body_cases)
     (simp_all add: restore_active_frame bridge_restore_selected_frame restore_mode_frame
        restore_visible_collections_result restore_viewport_settings_frame)

lemma bridge_restore_selected_result:
  "bridge_restore_selected c h =
     (if truthy (selected_objects c) then
        (if map_of (raises h) Select_all = None
         then select_each (the (selected_objects c)) (h\<lparr>sel_objects := []\<rparr>)
         else (map_option Exception (map_of (raises h) Select_all), h))
      else (None, h))"
  by (auto simp: bridge_restore_selected_def seq_def select_all_deselect_def prim_def
        split: option.splits)

lemma bridge_restore_selected_exact:
  assumes "truthy (selected_objects c)"
    and "map_of (raises h) Select_all = None"
    and "\<forall>n \<in> set (the (selected_objects c)) \<inter> set (data_objects h).
           map_of (raises h) (Select_set n) = None"
  shows "fst (bridge_restore_selected c h) = None \<and>
         set (sel_objects (snd (bridge_restore_selected c h))) =
           set (the (selected_objects c)) \<inter> set (data_objects h)"
  using select_each_exact [of "the (selected_objects c)" "h\<lparr>sel_objects := []\<rparr>"] assms
  by (simp add: bridge_restore_selected_result)

lemma bridge_restore_body_selection:
  "sel_objects (snd (bridge_restore_body c h)) =
     (if fst (restore_active c h) = None
      then sel_objects (snd (bridge_restore_selected c (snd (restore_active c h))))
      else sel_objects h)"
  by (simp add: bridge_restore_body_def seq_result restore_active_frame restore_mode_frame
        restore_visible_collections_frame restore_viewport_settings_frame)

lemma hide_unless_visible:
  assumes "distinct (map fst cs)"
  shows "map (\<lambda>col. (fst col, fst col \<notin> set (visible_names cs))) cs = cs"
proof (rule map_idI)
  fix col assume mem: "col \<in> set cs"
  have "fst col \<in> set (visible_names cs) \<longleftrightarrow> \<not> snd col"
  proof
    assume "fst col \<in> set (visible_names cs)"
    then obtain col' where c': "col' \<in> set cs" "\<not> snd col'" "fst col' = fst col"
      by (auto simp: visible_names_def)
    with assms mem have "col' = col" by (meson eq_key_imp_eq_value prod.collapse prod_eqI distinct_map inj_onD)
    with c' show "\<not> snd col" by simp
  next
    assume "\<not> snd col"
    with mem show "fst col \<in> set (visible_names cs)" by (auto simp: visible_names_def)
  qed
  then show "(fst col, fst col \<notin> set (visible_names cs)) = col"
    by (cases col) auto
qed


section \<open>The context stack\<close>

lemma bridge_capture_context_fields:
  "context_stack (snd (bridge_capture_context b h)) = context_stack b"
  "max_context_stack_size (snd (bridge_capture_context b h)) = max_context_stack_size b"
  "context_preservation (snd (bridge_capture_context b h)) = context_preservation b"
  by (auto simp: bridge_capture_context_def split: sum.splits exn.splits)

lemma core_push_context_result:
  "fst (core_push_context m h) = (int (get_context_stack_size m) < max_context_stack_size m)"
  by (simp add: core_push_context_def get_context_stack_size_def)

lemma core_push_context_stack:
  "context_stack (snd (core_push_context m h)) =
     (if fst (core_push_context m h) then context_stack m @ [core_capture_context h]
      else context_stack m)"
  by (simp add: core_push_context_def)

lemma core_push_context_max:
  "max_context_stack_size (snd (core_push_context m h)) = max_context_stack_size m"
  by (simp add: core_push_context_def)

lemma bridge_push_context_result:
  "fst (bridge_push_context b h) = (int (get_context_stack_size b) < max_context_stack_size b)"
  by (simp add: bridge_push_context_def get_context_stack_size_def split: prod.splits)

lemma bridge_push_context_stack:
  "context_stack (snd (bridge_push_context b h)) =
     (if fst (bridge_push_context b h)
      then context_stack b @ [fst (bridge_capture_context b h)]
      else context_stack b)"
  using bridge_capture_context_fields(1) [of b h]
  by (auto simp: bridge_push_context_def split: prod.splits)

lemma bridge_push_context_max:
  "max_context_stack_size (snd (bridge_push_context b h)) = max_context_stack_size b"
  using bridge_capture_context_fields(2) [of b h]
  by (auto simp: bridge_push_context_def split: prod.splits)

lemma push_all_depth:
  assumes res: "\<And>m h. fst (push m h) = (int (length (context_stack m)) < max_context_stack_size m)"
    and len: "\<And>m h. length (context_stack (snd (push m h))) =
                 length (context_stack m) + (if fst (push m h) then 1 else 0)"
    and mx: "\<And>m h. max_context_stack_size (snd (push m h)) = max_context_stack_size m"
  shows "fst (push_all push m hs) =
           map (\<lambda>i. int (length (context_stack m)) + int i < max_context_stack_size m) [0..<length hs] \<and>
         int (length (context_stack (snd (push_all push m hs)))) =
           (if int (length (context_stack m)) < max_context_stack_size m
            then min (int (length (context_stack m)) + int (length hs)) (max_context_stack_size m)
            else int (length (context_stack m))) \<and>
         max_context_stack_size (snd (push_all push m hs)) = max_context_stack_size m"
proof (induction hs arbitrary: m)
  case Nil
  then show ?case by simp
next
  case (Cons h hs)
  obtain ok m' where p: "push m h = (ok, m')" by (cases "push m h")
  have ok: "ok = (int (length (context_stack m)) < max_context_stack_size m)"
    using res [of m h] p by simp
  have l: "length (context_stack m') = length (context_stack m) + (if ok then 1 else 0)"
    using len [of m h] p by simp
  have x: "max_context_stack_size m' = max_context_stack_size m"
    using mx [of m h] p by simp
  have fst_eq: "fst (push_all push m (h # hs)) = ok # fst (push_all push m' hs)"
    and snd_eq: "snd (push_all push m (h # hs)) = snd (push_all push m' hs)"
    using p by (simp_all split: prod.splits)
  have ih: "fst (push_all push m' hs) =
      map (\<lambda>i. int (length (context_stack m)) + int (Suc i) < max_context_stack_size m) [0..<length hs]"
    using Cons.IH [of m'] l x ok by (cases ok) (simp_all add: algebra_simps)
  have r: "fst (push_all push m (h # hs)) =
      map (\<lambda>i. int (length (context_stack m)) + int i < max_context_stack_size m) [0..<length (h # hs)]"
    unfolding fst_eq ih using ok by (simp add: map_upt_Suc del: upt_Suc)
  have d: "int (length (context_stack (snd (push_all push m (h # hs))))) =
           (if int (length (context_stack m)) < max_context_stack_size m
            then min (int (length (context_stack m)) + int (length (h # hs))) (max_context_stack_size m)
            else int (length (context_stack m)))"
    unfolding snd_eq using Cons.IH [of m'] l x ok by (cases ok) auto
  have k: "max_context_stack_size (snd (push_all push m (h # hs))) = max_context_stack_size m"
    unfolding snd_eq using Cons.IH [of m'] x by simp
  from r d k show ?case by blast
qed


lemma bridge_restore_context_manager:
  "fst (bridge_restore_context b c h) = (fst (bridge_restore_body c h) = None)"
  "snd (snd (bridge_restore_context b c h)) = snd (bridge_restore_body c h)"
  "context_stack (fst (snd (bridge_restore_context b c h))) = context_stack b"
  "max_context_stack_size (fst (snd (bridge_restore_context b c h))) = max_context_stack_size b"
  by (auto simp: bridge_restore_context_def split: prod.splits option.splits exn.splits)

lemma core_restore_context_body:
  "fst (core_restore_context c h) = (fst (core_restore_body c h) = None)"
  "snd (core_restore_context c h) = snd (core_restore_body c h)"
  by (auto simp: core_restore_context_def split: prod.splits option.splits)

text \<open>
  C5. A push succeeds exactly when the stack is below \<^verbatim>\<open>max_context_stack_size\<close>; a
  successful push makes the stack one deeper and returns true, a push at (or above) the
  limit returns false and leaves the manager as it was, so nothing is captured. For a
  sequence of pushes, the \<open>i\<close>-th one succeeds exactly when the depth at the start plus
  \<open>i\<close> is below the limit. Both classes.
\<close>

theorem push_context_depth:
  "fst (core_push_context m h) = (int (get_context_stack_size m) < max_context_stack_size m) \<and>
   get_context_stack_size (snd (core_push_context m h)) =
     get_context_stack_size m + (if fst (core_push_context m h) then 1 else 0) \<and>
   (max_context_stack_size m \<le> int (get_context_stack_size m) \<longrightarrow>
      core_push_context m h = (False, m)) \<and>
   fst (bridge_push_context b h) = (int (get_context_stack_size b) < max_context_stack_size b) \<and>
   get_context_stack_size (snd (bridge_push_context b h)) =
     get_context_stack_size b + (if fst (bridge_push_context b h) then 1 else 0) \<and>
   (max_context_stack_size b \<le> int (get_context_stack_size b) \<longrightarrow>
      bridge_push_context b h = (False, b)) \<and>
   fst (push_all core_push_context m hs) =
     map (\<lambda>i. int (get_context_stack_size m) + int i < max_context_stack_size m) [0..<length hs] \<and>
   fst (push_all bridge_push_context b hs) =
     map (\<lambda>i. int (get_context_stack_size b) + int i < max_context_stack_size b) [0..<length hs]"
proof -
  have c: "fst (push_all core_push_context m hs) =
     map (\<lambda>i. int (get_context_stack_size m) + int i < max_context_stack_size m) [0..<length hs]"
    unfolding get_context_stack_size_def
    by (rule push_all_depth [THEN conjunct1])
       (simp_all add: core_push_context_result [unfolded get_context_stack_size_def]
          core_push_context_stack core_push_context_max)
  have b: "fst (push_all bridge_push_context b hs) =
     map (\<lambda>i. int (get_context_stack_size b) + int i < max_context_stack_size b) [0..<length hs]"
    unfolding get_context_stack_size_def
    by (rule push_all_depth [THEN conjunct1])
       (simp_all add: bridge_push_context_result [unfolded get_context_stack_size_def]
          bridge_push_context_stack bridge_push_context_max)
  have c1: "get_context_stack_size (snd (core_push_context m h)) =
     get_context_stack_size m + (if fst (core_push_context m h) then 1 else 0)"
    by (simp add: get_context_stack_size_def core_push_context_stack)
  have b1: "get_context_stack_size (snd (bridge_push_context b h)) =
     get_context_stack_size b + (if fst (bridge_push_context b h) then 1 else 0)"
    by (simp add: get_context_stack_size_def bridge_push_context_stack)
  have c2: "max_context_stack_size m \<le> int (get_context_stack_size m) \<longrightarrow>
      core_push_context m h = (False, m)"
    by (simp add: core_push_context_def get_context_stack_size_def)
  have b2: "max_context_stack_size b \<le> int (get_context_stack_size b) \<longrightarrow>
      bridge_push_context b h = (False, b)"
    by (simp add: bridge_push_context_def get_context_stack_size_def)
  show ?thesis
    using c b c1 b1 c2 b2 core_push_context_result [of m h] bridge_push_context_result [of b h]
    by blast
qed

theorem push_context_depth_witness:
  "max_context_stack_size (core0\<lparr>max_context_stack_size := 0\<rparr>)
     \<le> int (get_context_stack_size (core0\<lparr>max_context_stack_size := 0\<rparr>)) \<and>
   core_push_context (core0\<lparr>max_context_stack_size := 0\<rparr>) scene0
     = (False, core0\<lparr>max_context_stack_size := 0\<rparr>) \<and>
   max_context_stack_size (bridge0\<lparr>max_context_stack_size := 0\<rparr>)
     \<le> int (get_context_stack_size (bridge0\<lparr>max_context_stack_size := 0\<rparr>)) \<and>
   bridge_push_context (bridge0\<lparr>max_context_stack_size := 0\<rparr>) scene0
     = (False, bridge0\<lparr>max_context_stack_size := 0\<rparr>) \<and>
   fst (push_all core_push_context (core0\<lparr>max_context_stack_size := 2\<rparr>) [scene0, scene0, scene0])
     = [True, True, False] \<and>
   fst (push_all bridge_push_context (bridge0\<lparr>max_context_stack_size := 2\<rparr>) [scene0, scene0, scene0])
     = [True, True, False]"
  using push_context_depth [of "core0\<lparr>max_context_stack_size := 0\<rparr>" scene0
          "bridge0\<lparr>max_context_stack_size := 0\<rparr>" "[]"]
        push_context_depth [of "core0\<lparr>max_context_stack_size := 2\<rparr>" scene0
          "bridge0\<lparr>max_context_stack_size := 2\<rparr>" "[scene0, scene0, scene0]"]
  by (simp add: core0_def bridge0_def get_context_stack_size_def upt_rec)

text \<open>
  C6. A pop on the empty stack returns false and changes neither the manager nor the
  host; a pop on a stack whose last element is \<open>c\<close> removes exactly \<open>c\<close>, restores
  it, and returns what \<^verbatim>\<open>restore_context\<close> returned. Both classes.
\<close>

theorem pop_context_lifo:
  "(context_stack m = [] \<longrightarrow> core_pop_context m h = (False, m, h)) \<and>
   (context_stack m = cs @ [c] \<longrightarrow>
      core_pop_context m h =
        (fst (core_restore_context c h), m\<lparr>context_stack := cs\<rparr>, snd (core_restore_context c h))) \<and>
   (context_stack b = [] \<longrightarrow> bridge_pop_context b h = (False, b, h)) \<and>
   (context_stack b = cs @ [c] \<longrightarrow>
      bridge_pop_context b h = bridge_restore_context (b\<lparr>context_stack := cs\<rparr>) c h \<and>
      context_stack (fst (snd (bridge_pop_context b h))) = cs)"
  by (auto simp: core_pop_context_def bridge_pop_context_def bridge_restore_context_manager
           split: prod.splits)

theorem pop_context_lifo_witness:
  "context_stack core0 = [] \<and> core_pop_context core0 scene0 = (False, core0, scene0) \<and>
   context_stack bridge0 = [] \<and> bridge_pop_context bridge0 scene0 = (False, bridge0, scene0) \<and>
   context_stack (core0\<lparr>context_stack := [empty_ctx, cube_sphere]\<rparr>) = [empty_ctx] @ [cube_sphere] \<and>
   core_pop_context (core0\<lparr>context_stack := [empty_ctx, cube_sphere]\<rparr>) scene0 =
     (fst (core_restore_context cube_sphere scene0), core0\<lparr>context_stack := [empty_ctx]\<rparr>,
      snd (core_restore_context cube_sphere scene0)) \<and>
   context_stack (bridge0\<lparr>context_stack := [empty_ctx, cube_sphere]\<rparr>) = [empty_ctx] @ [cube_sphere] \<and>
   bridge_pop_context (bridge0\<lparr>context_stack := [empty_ctx, cube_sphere]\<rparr>) scene0 =
     bridge_restore_context (bridge0\<lparr>context_stack := [empty_ctx]\<rparr>) cube_sphere scene0"
  using pop_context_lifo [of core0 scene0 "[]" empty_ctx bridge0]
        pop_context_lifo [of "core0\<lparr>context_stack := [empty_ctx, cube_sphere]\<rparr>" scene0
          "[empty_ctx]" cube_sphere "bridge0\<lparr>context_stack := [empty_ctx, cube_sphere]\<rparr>"]
  by (simp add: core0_def bridge0_def)

text \<open>
  C9. \<^verbatim>\<open>set_max_context_stack_size\<close> leaves the stack and its depth as they are, whatever
  the new limit; afterwards a push returns false exactly when the depth is at or above
  the new limit, and pop and clear do what they did before. Both classes.
\<close>

theorem set_max_context_stack_size_frame:
  "context_stack (set_max_context_stack_size m n) = context_stack m \<and>
   get_context_stack_size (set_max_context_stack_size m n) = get_context_stack_size m \<and>
   (fst (core_push_context (set_max_context_stack_size m n) h) = False
      \<longleftrightarrow> n \<le> int (get_context_stack_size m)) \<and>
   (fst (bridge_push_context (set_max_context_stack_size b n) h) = False
      \<longleftrightarrow> n \<le> int (get_context_stack_size b)) \<and>
   core_pop_context (set_max_context_stack_size m n) h =
     (fst (core_pop_context m h),
      set_max_context_stack_size (fst (snd (core_pop_context m h))) n,
      snd (snd (core_pop_context m h))) \<and>
   fst (bridge_pop_context (set_max_context_stack_size b n) h) = fst (bridge_pop_context b h) \<and>
   snd (snd (bridge_pop_context (set_max_context_stack_size b n) h)) = snd (snd (bridge_pop_context b h)) \<and>
   context_stack (fst (snd (bridge_pop_context (set_max_context_stack_size b n) h))) =
     context_stack (fst (snd (bridge_pop_context b h))) \<and>
   clear_context_stack (set_max_context_stack_size m n) =
     set_max_context_stack_size (clear_context_stack m) n \<and>
   context_stack (clear_context_stack (set_max_context_stack_size m n)) = []"
  by (auto simp: set_max_context_stack_size_def get_context_stack_size_def core_push_context_def
        bridge_push_context_def core_pop_context_def bridge_pop_context_def
        clear_context_stack_def bridge_restore_context_manager
      split: prod.splits)



section \<open>Preserving the context around an operation\<close>

text \<open>
  C1. With context preservation enabled, \<^verbatim>\<open>preserve_context\<close> returns true exactly when
  the operation completed without raising and \<^verbatim>\<open>restore_context\<close>, called on the
  snapshot taken before the operation, returned true. Whether or not the operation
  raised, the host is left as that call of \<^verbatim>\<open>restore_context\<close> leaves the host the
  operation produced; no exception reaches the caller. Both classes.
\<close>

theorem preserve_context_enabled:
  assumes "context_preservation m" and "context_preservation b"
  shows "fst (core_preserve_context m operation h) =
           Inr (fst (operation h) = None \<and>
                fst (core_restore_context (core_capture_context h) (snd (operation h)))) \<and>
         snd (core_preserve_context m operation h) =
           snd (core_restore_context (core_capture_context h) (snd (operation h))) \<and>
         fst (bridge_preserve_context b operation h) =
           Inr (fst (operation h) = None \<and>
                fst (bridge_restore_context b (fst (bridge_capture_context b h)) (snd (operation h)))) \<and>
         snd (snd (bridge_preserve_context b operation h)) =
           snd (snd (bridge_restore_context b (fst (bridge_capture_context b h)) (snd (operation h))))"
proof -
  obtain r h1 where op: "operation h = (r, h1)" by (cases "operation h")
  obtain saved b1 where cap: "bridge_capture_context b h = (saved, b1)"
    by (cases "bridge_capture_context b h")
  have core: "fst (core_preserve_context m operation h) =
           Inr (r = None \<and> fst (core_restore_context (core_capture_context h) h1)) \<and>
         snd (core_preserve_context m operation h) =
           snd (core_restore_context (core_capture_context h) h1)"
    using assms(1) op
    by (cases r) (simp_all add: core_preserve_context_def split: prod.splits)
  have bridge: "fst (bridge_preserve_context b operation h) =
           Inr (r = None \<and> fst (bridge_restore_context b saved h1)) \<and>
         snd (snd (bridge_preserve_context b operation h)) =
           snd (snd (bridge_restore_context b saved h1))"
    using assms(2) op cap
    by (cases r)
       (simp_all add: bridge_preserve_context_def bridge_restore_context_manager
          case_prod_beta split: exn.splits)
  show ?thesis using core bridge op cap by simp
qed

theorem preserve_context_enabled_witness:
  "context_preservation core0 \<and> context_preservation bridge0 \<and>
   fst (failing_operation scene0) \<noteq> None \<and>
   fst (core_preserve_context core0 failing_operation scene0) = Inr False \<and>
   fst (bridge_preserve_context bridge0 failing_operation scene0) = Inr False \<and>
   snd (core_preserve_context core0 failing_operation scene0) =
     snd (core_restore_context (core_capture_context scene0) (snd (failing_operation scene0))) \<and>
   snd (snd (bridge_preserve_context bridge0 failing_operation scene0)) =
     snd (snd (bridge_restore_context bridge0 (fst (bridge_capture_context bridge0 scene0))
       (snd (failing_operation scene0)))) \<and>
   fst (select_cube scene0) = None \<and>
   fst (core_preserve_context core0 select_cube scene0) = Inr True \<and>
   fst (bridge_preserve_context bridge0 select_cube scene0) = Inr True \<and>
   sel_objects (snd (snd (bridge_preserve_context bridge0 select_cube scene0))) = [''TestCone''] \<and>
   act_object (snd (snd (bridge_preserve_context bridge0 select_cube scene0))) = Some ''TestCone''"
proof -
  have c: "context_preservation core0" by (simp add: core0_def)
  have b: "context_preservation bridge0" by (simp add: bridge0_def)
  have f: "fst (failing_operation scene0) \<noteq> None" by (simp add: failing_operation_def)
  have s: "select_cube scene0 = (None, scene0\<lparr>sel_objects := [''TestCube''], act_object := Some ''TestCube''\<rparr>)"
    by (simp add: select_cube_def)
  have cap: "fst (bridge_capture_context bridge0 scene0) =
      \<lparr>selected_objects = Some [''TestCone''], active_object = Some ''TestCone'',
       view_layer = Some ''ViewLayer'', mode = Some ''OBJECT'',
       viewport_settings = Some \<lparr>vp_shading = Some ''SOLID'', vp_overlay = Some ''SOLID''\<rparr>,
       visible_collections = Some [''Props'', ''Lights''], is_rendering = Some False,
       custom_state = Some (capture_custom_state scene0)\<rparr>"
    by (simp add: bridge_capture_context_def bridge_capture_body_def try_bind_def guard_def
          read_selected_objects_def read_active_object_def read_view_layer_def read_mode_def
          read_is_rendering_def read_collections_def read_wireframes_def
          capture_viewport_settings_def capture_visible_collections_def
          visible_names_def scene0_def)
  have ccap: "core_capture_context scene0 =
      \<lparr>selected_objects = Some [''TestCone''], active_object = Some ''TestCone'',
       view_layer = Some ''ViewLayer'', mode = Some ''OBJECT'',
       viewport_settings = Some \<lparr>vp_shading = Some ''SOLID'', vp_overlay = Some ''SOLID''\<rparr>,
       visible_collections = Some [''Props'', ''Lights''], is_rendering = Some False,
       custom_state = Some []\<rparr>"
    by (simp add: core_capture_context_def core_capture_body_def try_bind_def guard_def
          read_selected_objects_def read_active_object_def read_view_layer_def read_mode_def
          read_is_rendering_def read_collections_def read_wireframes_def
          visible_names_def scene0_def)
  have rb: "fst (bridge_restore_context bridge0 (fst (bridge_capture_context bridge0 scene0))
              (snd (select_cube scene0))) = True \<and>
     sel_objects (snd (snd (bridge_restore_context bridge0 (fst (bridge_capture_context bridge0 scene0))
              (snd (select_cube scene0))))) = [''TestCone''] \<and>
     act_object (snd (snd (bridge_restore_context bridge0 (fst (bridge_capture_context bridge0 scene0))
              (snd (select_cube scene0))))) = Some ''TestCone''"
    unfolding cap s
    by (simp add: bridge_restore_context_def bridge_restore_body_def seq_def restore_active_def
        bridge_restore_selected_def restore_mode_def
        restore_viewport_settings_def restore_visible_collections_def get_viewport_settings_def
        get_visible_collections_def read_collections_def read_active_object_def guard_def
        select_all_deselect_def select_set_true_def set_active_def mode_set_def set_shading_def
        prim_def has_shading_def truthy_def scene0_def bridge0_def)
  have rc: "fst (core_restore_context (core_capture_context scene0) (snd (select_cube scene0))) = True"
    unfolding ccap s
    by (simp add: core_restore_context_def core_restore_body_def seq_def restore_active_def
        core_restore_selected_def restore_mode_def core_restore_viewport_def
        read_active_object_def guard_def
        select_set_true_def set_active_def mode_set_def set_shading_def
        prim_def has_shading_def truthy_def truthy_viewport_def scene0_def)
  show ?thesis
    using preserve_context_enabled [OF c b, of failing_operation scene0]
          preserve_context_enabled [OF c b, of select_cube scene0] c b f s rb rc
    by simp
qed

lemma bridge_preserve_context_disabled:
  "\<not> context_preservation b \<Longrightarrow>
   fst (bridge_preserve_context b operation h) = Inr (fst (operation h) = None) \<and>
   snd (snd (bridge_preserve_context b operation h)) = snd (operation h) \<and>
   context_stack (fst (snd (bridge_preserve_context b operation h))) = context_stack b"
  by (auto simp: bridge_preserve_context_def split: prod.splits option.splits exn.splits)

lemma core_preserve_context_disabled:
  "\<not> context_preservation m \<Longrightarrow>
   fst (core_preserve_context m operation h) =
     (case fst (operation h) of None \<Rightarrow> Inr True | Some e \<Rightarrow> Inl e) \<and>
   snd (core_preserve_context m operation h) = snd (operation h)"
  by (auto simp: core_preserve_context_def split: prod.splits option.splits)

text \<open>
  C2. With context preservation disabled, \<^verbatim>\<open>TahliaBridge.preserve_context\<close> reports a
  raising operation as false (see \<open>bridge_preserve_context_disabled\<close>), but
  \<^verbatim>\<open>TahliaCore.preserve_context\<close> calls the operation outside any handler: on the
  failing import below the exception reaches the caller.
\<close>

theorem core_preserve_context_disabled_raises:
  "fst (core_preserve_context (set_context_preservation core0 False) failing_operation scene0)
     = Inl (Exception ''import failed'') \<and>
   fst (bridge_preserve_context (set_context_preservation bridge0 False) failing_operation scene0)
     = Inr False"
  by (simp add: core_preserve_context_def bridge_preserve_context_def set_context_preservation_def
        core0_def bridge0_def failing_operation_def)

section \<open>The active object\<close>

text \<open>
  C10. A capture records the name of the active object, and the empty string when there
  is none; the entry is missing only from the empty snapshot of a capture whose reads
  failed. \<^verbatim>\<open>restore_context\<close> changes the host's active object only
  when the snapshot's field is a non-empty name found in \<^verbatim>\<open>bpy.data.objects\<close> (and the
  host accepts the assignment); a snapshot whose field is missing or empty leaves the
  active object as it is. Both classes.
\<close>

theorem restore_context_active_object:
  "active_object (core_capture_context h) =
     (if map_of (raises h) Read_selected_objects = None \<and>
         map_of (raises h) Read_active_object = None \<and>
         map_of (raises h) Read_view_layer = None \<and>
         map_of (raises h) Read_mode = None \<and>
         space_wireframes h \<noteq> None \<and>
         map_of (raises h) Read_collections = None \<and>
         map_of (raises h) Read_is_rendering = None
      then Some (case act_object h of None \<Rightarrow> [] | Some n \<Rightarrow> n) else None) \<and>
   active_object (fst (bridge_capture_context b h)) =
     (if map_of (raises h) Read_selected_objects = None \<and>
         map_of (raises h) Read_active_object = None \<and>
         map_of (raises h) Read_view_layer = None \<and>
         map_of (raises h) Read_mode = None \<and>
         map_of (raises h) Read_is_rendering = None
      then Some (case act_object h of None \<Rightarrow> [] | Some n \<Rightarrow> n) else None) \<and>
   act_object (snd (core_restore_context c h)) =
     (if truthy (active_object c) \<and> the (active_object c) \<in> set (data_objects h) \<and>
         map_of (raises h) (Set_active (the (active_object c))) = None
      then active_object c else act_object h) \<and>
   act_object (snd (snd (bridge_restore_context b c h))) =
     (if truthy (active_object c) \<and> the (active_object c) \<in> set (data_objects h) \<and>
         map_of (raises h) (Set_active (the (active_object c))) = None
      then active_object c else act_object h) \<and>
   (active_object c = None \<or> active_object c = Some [] \<longrightarrow>
      act_object (snd (core_restore_context c h)) = act_object h \<and>
      act_object (snd (snd (bridge_restore_context b c h))) = act_object h)"
proof -
  have cap_c: "active_object (core_capture_context h) =
     (if map_of (raises h) Read_selected_objects = None \<and>
         map_of (raises h) Read_active_object = None \<and>
         map_of (raises h) Read_view_layer = None \<and>
         map_of (raises h) Read_mode = None \<and>
         space_wireframes h \<noteq> None \<and>
         map_of (raises h) Read_collections = None \<and>
         map_of (raises h) Read_is_rendering = None
      then Some (case act_object h of None \<Rightarrow> [] | Some n \<Rightarrow> n) else None)"
    by (auto simp: core_capture_context_def core_capture_body_def try_bind_def guard_def
          read_selected_objects_def read_active_object_def read_view_layer_def read_mode_def
          read_collections_def read_is_rendering_def read_wireframes_def empty_ctx_def
          split: option.splits)
  have cap_b: "active_object (fst (bridge_capture_context b h)) =
     (if map_of (raises h) Read_selected_objects = None \<and>
         map_of (raises h) Read_active_object = None \<and>
         map_of (raises h) Read_view_layer = None \<and>
         map_of (raises h) Read_mode = None \<and>
         map_of (raises h) Read_is_rendering = None
      then Some (case act_object h of None \<Rightarrow> [] | Some n \<Rightarrow> n) else None)"
    by (auto simp: bridge_capture_context_def bridge_capture_body_def try_bind_def guard_def
          read_selected_objects_def read_active_object_def read_view_layer_def read_mode_def
          read_is_rendering_def empty_ctx_def
          split: option.splits)
  have res_c: "act_object (snd (core_restore_context c h)) =
     (if truthy (active_object c) \<and> the (active_object c) \<in> set (data_objects h) \<and>
         map_of (raises h) (Set_active (the (active_object c))) = None
      then active_object c else act_object h)"
    by (simp only: core_restore_context_body core_restore_body_act_object
          restore_active_act_object)
  have res_b: "act_object (snd (snd (bridge_restore_context b c h))) =
     (if truthy (active_object c) \<and> the (active_object c) \<in> set (data_objects h) \<and>
         map_of (raises h) (Set_active (the (active_object c))) = None
      then active_object c else act_object h)"
    by (simp only: bridge_restore_context_manager bridge_restore_body_act_object
          restore_active_act_object)
  have empty: "active_object c = None \<or> active_object c = Some [] \<longrightarrow> \<not> truthy (active_object c)"
    by (auto simp: truthy_def)
  have last: "active_object c = None \<or> active_object c = Some [] \<longrightarrow>
      act_object (snd (core_restore_context c h)) = act_object h \<and>
      act_object (snd (snd (bridge_restore_context b c h))) = act_object h"
    using res_c res_b empty by simp
  from cap_c cap_b res_c res_b last show ?thesis by (intro conjI)
qed

theorem restore_context_active_object_witness:
  "act_object no_active_scene = None \<and>
   active_object (core_capture_context no_active_scene) = Some [] \<and>
   active_object (fst (bridge_capture_context bridge0 no_active_scene)) = Some [] \<and>
   active_object (core_capture_context scene0) = Some ''TestCone'' \<and>
   active_object (fst (bridge_capture_context bridge0 scene0)) = Some ''TestCone'' \<and>
   active_object (core_capture_context restricted_scene) = None \<and>
   act_object (snd (core_restore_context (core_capture_context no_active_scene) scene0))
     = Some ''TestCone'' \<and>
   act_object (snd (snd (bridge_restore_context bridge0
       (fst (bridge_capture_context bridge0 no_active_scene)) scene0))) = Some ''TestCone'' \<and>
   active_object empty_ctx = None \<and>
   act_object (snd (core_restore_context empty_ctx scene0)) = Some ''TestCone'' \<and>
   act_object (snd (snd (bridge_restore_context bridge0 empty_ctx scene0))) = Some ''TestCone'' \<and>
   act_object (snd (core_restore_context cube_sphere scene0)) = Some ''TestCube'' \<and>
   act_object (snd (snd (bridge_restore_context bridge0 cube_sphere scene0))) = Some ''TestCube''"
proof -
  have n: "act_object no_active_scene = None \<and> raises no_active_scene = [] \<and>
      space_wireframes no_active_scene = Some False"
    by (simp add: no_active_scene_def scene0_def)
  have s: "act_object scene0 = Some ''TestCone'' \<and> raises scene0 = [] \<and>
      space_wireframes scene0 = Some False \<and>
      data_objects scene0 = [''TestCube'', ''TestSphere'', ''TestCone'']"
    by (simp add: scene0_def)
  have r: "map_of (raises restricted_scene) Read_selected_objects \<noteq> None"
    by (simp add: restricted_scene_def)
  have capn: "active_object (core_capture_context no_active_scene) = Some [] \<and>
      active_object (fst (bridge_capture_context bridge0 no_active_scene)) = Some []"
    using restore_context_active_object [of no_active_scene bridge0 empty_ctx] n by simp
  have caps: "active_object (core_capture_context scene0) = Some ''TestCone'' \<and>
      active_object (fst (bridge_capture_context bridge0 scene0)) = Some ''TestCone''"
    using restore_context_active_object [of scene0 bridge0 empty_ctx] s by simp
  have capr: "active_object (core_capture_context restricted_scene) = None"
    using restore_context_active_object [of restricted_scene bridge0 empty_ctx] r by simp
  have resn: "act_object (snd (core_restore_context (core_capture_context no_active_scene) scene0))
       = Some ''TestCone''"
    using restore_context_active_object [of scene0 bridge0 "core_capture_context no_active_scene"]
      capn s by (simp add: truthy_def)
  have resb: "act_object (snd (snd (bridge_restore_context bridge0
       (fst (bridge_capture_context bridge0 no_active_scene)) scene0))) = Some ''TestCone''"
    using restore_context_active_object
      [of scene0 bridge0 "fst (bridge_capture_context bridge0 no_active_scene)"]
      capn s by (simp add: truthy_def)
  have e: "active_object empty_ctx = None" by (simp add: empty_ctx_def)
  have rese: "act_object (snd (core_restore_context empty_ctx scene0)) = Some ''TestCone'' \<and>
      act_object (snd (snd (bridge_restore_context bridge0 empty_ctx scene0))) = Some ''TestCone''"
    using restore_context_active_object [of scene0 bridge0 empty_ctx] e s by (simp add: truthy_def)
  have resc: "act_object (snd (core_restore_context cube_sphere scene0)) = Some ''TestCube'' \<and>
      act_object (snd (snd (bridge_restore_context bridge0 cube_sphere scene0))) = Some ''TestCube''"
    using restore_context_active_object [of scene0 bridge0 cube_sphere] s
    by (simp add: cube_sphere_def empty_ctx_def truthy_def)
  from n capn caps capr resn resb e rese resc show ?thesis by simp
qed

section \<open>Selection and collection visibility\<close>

lemma core_restore_context_collections:
  "scene_children (snd (core_restore_context c h)) = scene_children h"
  by (simp add: core_restore_context_body core_restore_body_collections)

lemma core_restore_context_keeps_selection:
  "set (sel_objects h) \<subseteq> set (sel_objects (snd (core_restore_context c h)))"
  by (simp add: core_restore_context_body core_restore_body_keeps_selection)

lemma bridge_restore_context_collections:
  "fst (bridge_restore_context b c h) \<Longrightarrow> map_of (raises h) Read_collections = None \<Longrightarrow>
   scene_children (snd (snd (bridge_restore_context b c h))) =
     map (\<lambda>col. (fst col, fst col \<notin> set (get_visible_collections c))) (scene_children h)"
  by (simp add: bridge_restore_context_manager bridge_restore_body_collections)

lemma bridge_restore_context_selection:
  assumes "raises h = []"
  shows "fst (bridge_restore_context b c h)"
    and "truthy (selected_objects c) \<Longrightarrow>
           set (sel_objects (snd (snd (bridge_restore_context b c h)))) =
             set (the (selected_objects c)) \<inter> set (data_objects h)"
    and "\<not> truthy (selected_objects c) \<Longrightarrow>
           sel_objects (snd (snd (bridge_restore_context b c h))) = sel_objects h"
proof -
  have a: "fst (restore_active c h) = None"
    using assms by (simp add: restore_active_def set_active_def prim_result)
  have r1: "raises (snd (restore_active c h)) = []"
    using assms by (simp add: restore_active_frame)
  have s: "fst (bridge_restore_selected c (snd (restore_active c h))) = None"
    using select_each_exact [of "the (selected_objects c)" "(snd (restore_active c h))\<lparr>sel_objects := []\<rparr>"] r1
    by (simp add: bridge_restore_selected_result)
  have m: "fst (restore_mode c (snd (bridge_restore_selected c (snd (restore_active c h))))) = None"
    using assms
    by (simp add: restore_mode_def read_active_object_def guard_def bridge_restore_selected_frame
          restore_active_frame)
  show "fst (bridge_restore_context b c h)"
    using a s m by (simp add: bridge_restore_context_manager bridge_restore_body_def seq_None)
  have sel: "sel_objects (snd (bridge_restore_body c h)) =
      sel_objects (snd (bridge_restore_selected c (snd (restore_active c h))))"
    using a s m
    by (simp add: bridge_restore_body_def seq_None restore_mode_frame
          restore_visible_collections_frame restore_viewport_settings_frame)
  show "set (sel_objects (snd (snd (bridge_restore_context b c h)))) =
          set (the (selected_objects c)) \<inter> set (data_objects h)" if "truthy (selected_objects c)"
    using select_each_exact [of "the (selected_objects c)" "(snd (restore_active c h))\<lparr>sel_objects := []\<rparr>"]
      r1 that
    by (simp add: bridge_restore_context_manager sel bridge_restore_selected_result
          restore_active_frame)
  show "sel_objects (snd (snd (bridge_restore_context b c h))) = sel_objects h"
    if "\<not> truthy (selected_objects c)"
    using that
    by (simp add: bridge_restore_context_manager sel bridge_restore_selected_result
          restore_active_frame)
qed

text \<open>
  C7. \<^verbatim>\<open>TahliaBridge.restore_context\<close>, when it runs to its end, hides exactly the
  collections whose name is not in the snapshot's list
  (\<open>bridge_restore_context_collections\<close>). \<^verbatim>\<open>TahliaCore.restore_context\<close> has no such
  step (\<open>core_restore_context_collections\<close>): restoring a snapshot in which only
  \<^verbatim>\<open>Props\<close> was visible leaves \<^verbatim>\<open>Lights\<close> visible, and returns true.
\<close>

theorem core_restore_context_collections_untouched:
  "fst (core_restore_context props_only scene0) = True \<and>
   scene_children scene0 = [(''Props'', False), (''Lights'', False)] \<and>
   visible_collections props_only = Some [''Props''] \<and>
   scene_children (snd (core_restore_context props_only scene0)) =
     [(''Props'', False), (''Lights'', False)] \<and>
   scene_children (snd (snd (bridge_restore_context bridge0 props_only scene0))) =
     [(''Props'', False), (''Lights'', True)]"
  by (simp add: core_restore_context_def core_restore_body_def seq_def restore_active_def
        core_restore_selected_def restore_mode_def core_restore_viewport_def
        bridge_restore_context_def bridge_restore_body_def bridge_restore_selected_def
        restore_viewport_settings_def restore_visible_collections_def get_viewport_settings_def
        get_visible_collections_def read_collections_def read_active_object_def guard_def
        select_all_deselect_def select_set_true_def set_active_def mode_set_def set_shading_def
        prim_def has_shading_def truthy_def truthy_viewport_def
        props_only_def cube_sphere_def empty_ctx_def scene0_def bridge0_def)

text \<open>
  C3. \<^verbatim>\<open>TahliaBridge.restore_context\<close> deselects everything and selects the snapshot's
  objects that still exist (\<open>bridge_restore_context_selection\<close>), but only when the
  snapshot's list is not empty. \<^verbatim>\<open>TahliaCore.restore_context\<close> never deselects
  (\<open>core_restore_context_keeps_selection\<close>): restoring the cube and the sphere while the
  cone is selected leaves all three selected, and returns true.
\<close>

theorem core_restore_context_selection_not_cleared:
  "fst (core_restore_context cube_sphere scene0) = True \<and>
   sel_objects scene0 = [''TestCone''] \<and>
   selected_objects cube_sphere = Some [''TestCube'', ''TestSphere''] \<and>
   sel_objects (snd (core_restore_context cube_sphere scene0)) =
     [''TestCone'', ''TestCube'', ''TestSphere''] \<and>
   sel_objects (snd (snd (bridge_restore_context bridge0 cube_sphere scene0))) =
     [''TestCube'', ''TestSphere''] \<and>
   fst (bridge_restore_context bridge0 nothing_selected scene0) = True \<and>
   sel_objects (snd (snd (bridge_restore_context bridge0 nothing_selected scene0))) =
     [''TestCone'']"
  by (simp add: core_restore_context_def core_restore_body_def seq_def restore_active_def
        core_restore_selected_def restore_mode_def core_restore_viewport_def
        bridge_restore_context_def bridge_restore_body_def bridge_restore_selected_def
        restore_viewport_settings_def restore_visible_collections_def get_viewport_settings_def
        get_visible_collections_def read_collections_def read_active_object_def guard_def
        select_all_deselect_def select_set_true_def set_active_def mode_set_def set_shading_def
        prim_def has_shading_def truthy_def truthy_viewport_def nothing_selected_def
        props_only_def cube_sphere_def empty_ctx_def scene0_def bridge0_def)

section \<open>Capture followed by restore\<close>

lemma core_capture_context_cases:
  "core_capture_context h = empty_ctx \<or>
   (selected_objects (core_capture_context h) = Some (sel_objects h) \<and>
    active_object (core_capture_context h) = Some (case act_object h of None \<Rightarrow> [] | Some n \<Rightarrow> n))"
  by (auto simp: core_capture_context_def core_capture_body_def try_bind_def guard_def
        read_selected_objects_def read_active_object_def read_view_layer_def read_mode_def
        read_collections_def read_is_rendering_def read_wireframes_def
        split: sum.splits option.splits)

lemma bridge_capture_context_success:
  assumes "fst (bridge_capture_context b h) \<noteq> empty_ctx"
  shows "selected_objects (fst (bridge_capture_context b h)) = Some (sel_objects h)"
    and "active_object (fst (bridge_capture_context b h)) =
           Some (case act_object h of None \<Rightarrow> [] | Some n \<Rightarrow> n)"
    and "visible_collections (fst (bridge_capture_context b h)) = Some (capture_visible_collections h)"
  using assms
  by (auto simp: bridge_capture_context_def bridge_capture_body_def try_bind_def guard_def
        read_selected_objects_def read_active_object_def read_view_layer_def read_mode_def
        read_is_rendering_def
        split: sum.splits option.splits exn.splits)

lemma restore_active_same:
  assumes "active_object c = Some (case act_object h of None \<Rightarrow> [] | Some n \<Rightarrow> n)"
  shows "act_object (snd (restore_active c h)) = act_object h"
  using assms by (auto simp: restore_active_act_object truthy_def split: option.splits)

lemma empty_ctx_restore_active:
  "restore_active empty_ctx h = (None, h)"
  by (simp add: restore_active_def empty_ctx_def truthy_def)

lemma core_restore_body_selection_same:
  assumes "selected_objects c = None \<or> set (the (selected_objects c)) \<subseteq> set (sel_objects h)"
  shows "sel_objects (snd (core_restore_body c h)) = sel_objects h"
proof -
  have "snd (core_restore_selected c (snd (restore_active c h))) = snd (restore_active c h)"
    using assms
    by (auto simp: core_restore_selected_def truthy_def select_each_selected restore_active_frame)
  then show ?thesis
    by (simp add: core_restore_body_def seq_result restore_active_frame restore_mode_frame
          core_restore_viewport_frame)
qed

lemma core_capture_restore_roundtrip:
  "sel_objects (snd (core_restore_context (core_capture_context h) h)) = sel_objects h \<and>
   act_object (snd (core_restore_context (core_capture_context h) h)) = act_object h \<and>
   scene_children (snd (core_restore_context (core_capture_context h) h)) = scene_children h"
proof -
  let ?c = "core_capture_context h"
  have sel: "selected_objects ?c = None \<or> set (the (selected_objects ?c)) \<subseteq> set (sel_objects h)"
    using core_capture_context_cases [of h] by (auto simp: empty_ctx_def)
  have act: "act_object (snd (restore_active ?c h)) = act_object h"
    using core_capture_context_cases [of h]
    by (auto simp: restore_active_same empty_ctx_restore_active)
  show ?thesis
    by (simp add: core_restore_context_body core_restore_body_selection_same [OF sel]
          core_restore_body_act_object act core_restore_body_collections)
qed

lemma bridge_restore_selected_same:
  assumes "selected_objects c = Some (sel_objects h)"
    and "set (sel_objects h) \<subseteq> set (data_objects h)"
    and "\<forall>n \<in> set (sel_objects h). map_of (raises h) (Select_set n) = None"
    and "sel_objects h1 = sel_objects h" "data_objects h1 = data_objects h" "raises h1 = raises h"
  shows "set (sel_objects (snd (bridge_restore_selected c h1))) = set (sel_objects h)"
proof (cases "truthy (selected_objects c) \<and> map_of (raises h1) Select_all = None")
  case True
  have "\<forall>n \<in> set (sel_objects h) \<inter> set (data_objects (h1\<lparr>sel_objects := []\<rparr>)).
          map_of (raises (h1\<lparr>sel_objects := []\<rparr>)) (Select_set n) = None"
    using assms by simp
  from select_each_exact [OF this] True assms show ?thesis
    by (auto simp: bridge_restore_selected_result)
next
  case False
  then show ?thesis using assms by (auto simp: bridge_restore_selected_result)
qed

lemma capture_visible_collections_restore:
  assumes "distinct (map fst (scene_children h))"
    and "scene_children h3 = scene_children h" "raises h3 = raises h"
  shows "scene_children (restore_visible_collections (capture_visible_collections h) h3) =
           scene_children h"
  using assms hide_unless_visible [OF assms(1)]
  by (simp add: restore_visible_collections_result capture_visible_collections_def
        read_collections_def guard_def)

text \<open>
  Restoring the snapshot just captured leaves the selection, the active object and the
  visibility of every collection as they were: in \<^verbatim>\<open>TahliaCore\<close> for every host
  state; in \<^verbatim>\<open>TahliaBridge\<close> when the capture did not fail, in a host whose
  selected objects exist and can be selected and whose collections have distinct names.
\<close>

lemma capture_restore_roundtrip:
  "sel_objects (snd (core_restore_context (core_capture_context h) h)) = sel_objects h \<and>
   act_object (snd (core_restore_context (core_capture_context h) h)) = act_object h \<and>
   scene_children (snd (core_restore_context (core_capture_context h) h)) = scene_children h \<and>
   (fst (bridge_capture_context b h) \<noteq> empty_ctx \<and>
    set (sel_objects h) \<subseteq> set (data_objects h) \<and>
    (\<forall>n \<in> set (sel_objects h). map_of (raises h) (Select_set n) = None) \<and>
    distinct (map fst (scene_children h)) \<longrightarrow>
      set (sel_objects (snd (snd (bridge_restore_context b' (fst (bridge_capture_context b h)) h))))
        = set (sel_objects h) \<and>
      act_object (snd (snd (bridge_restore_context b' (fst (bridge_capture_context b h)) h)))
        = act_object h \<and>
      scene_children (snd (snd (bridge_restore_context b' (fst (bridge_capture_context b h)) h)))
        = scene_children h)"
proof -
  let ?c = "fst (bridge_capture_context b h)"
  let ?h1 = "snd (restore_active ?c h)"
  let ?h2 = "snd (bridge_restore_selected ?c ?h1)"
  let ?h3 = "snd (restore_mode ?c ?h2)"
  {
    assume ok: "?c \<noteq> empty_ctx"
      and ex: "set (sel_objects h) \<subseteq> set (data_objects h)"
      and sl: "\<forall>n \<in> set (sel_objects h). map_of (raises h) (Select_set n) = None"
      and di: "distinct (map fst (scene_children h))"
    note cap = bridge_capture_context_success [OF ok]
    have act: "act_object ?h1 = act_object h"
      by (rule restore_active_same [OF cap(2)])
    have sel: "set (sel_objects ?h2) = set (sel_objects h)"
      by (rule bridge_restore_selected_same [OF cap(1) ex sl]) (simp_all add: restore_active_frame)
    have vis: "get_visible_collections ?c = capture_visible_collections h"
      using cap(3) by (simp add: get_visible_collections_def)
    have col: "scene_children (restore_visible_collections (get_visible_collections ?c)
                 (restore_viewport_settings (get_viewport_settings ?c) ?h3)) = scene_children h"
      unfolding vis
      by (rule capture_visible_collections_restore [OF di])
         (simp_all add: restore_viewport_settings_frame restore_mode_frame
            bridge_restore_selected_frame restore_active_frame)
    have "set (sel_objects (snd (bridge_restore_body ?c h))) = set (sel_objects h) \<and>
          act_object (snd (bridge_restore_body ?c h)) = act_object h \<and>
          scene_children (snd (bridge_restore_body ?c h)) = scene_children h"
      using act sel col
      by (cases ?c h rule: bridge_restore_body_cases)
         (simp_all add: restore_active_frame bridge_restore_selected_frame restore_mode_frame
            restore_viewport_settings_frame restore_visible_collections_frame)
  }
  then show ?thesis
    using core_capture_restore_roundtrip [of h]
    by (simp add: bridge_restore_context_manager)
qed


lemma capture_restore_roundtrip_scene0:
  "fst (bridge_capture_context bridge0 scene0) \<noteq> empty_ctx \<and>
   sel_objects scene0 = [''TestCone''] \<and>
   ''TestCone'' \<in> set (data_objects scene0) \<and>
   map_of (raises scene0) (Select_set ''TestCone'') = None \<and>
   distinct (map fst (scene_children scene0)) \<and>
   sel_objects (snd (core_restore_context (core_capture_context scene0) scene0)) = [''TestCone''] \<and>
   set (sel_objects (snd (snd
     (bridge_restore_context bridge0 (fst (bridge_capture_context bridge0 scene0)) scene0))))
     = {''TestCone''} \<and>
   act_object (snd (snd
     (bridge_restore_context bridge0 (fst (bridge_capture_context bridge0 scene0)) scene0)))
     = Some ''TestCone'' \<and>
   scene_children (snd (snd
     (bridge_restore_context bridge0 (fst (bridge_capture_context bridge0 scene0)) scene0)))
     = [(''Props'', False), (''Lights'', False)]"
proof -
  have ok: "fst (bridge_capture_context bridge0 scene0) \<noteq> empty_ctx"
    by (simp add: bridge_capture_context_def bridge_capture_body_def try_bind_def guard_def
          read_selected_objects_def read_active_object_def read_view_layer_def read_mode_def
          read_is_rendering_def empty_ctx_def scene0_def)
  have wf: "set (sel_objects scene0) \<subseteq> set (data_objects scene0) \<and>
      (\<forall>n \<in> set (sel_objects scene0). map_of (raises scene0) (Select_set n) = None) \<and>
      distinct (map fst (scene_children scene0))"
    by (simp add: scene0_def)
  have vals: "sel_objects scene0 = [''TestCone''] \<and> act_object scene0 = Some ''TestCone'' \<and>
      scene_children scene0 = [(''Props'', False), (''Lights'', False)]"
    by (simp add: scene0_def)
  show ?thesis
    using capture_restore_roundtrip [of scene0 bridge0 bridge0] ok wf vals by simp
qed

text \<open>
  C8. Capture followed at once by restore should leave the collections as they are, and
  in \<^verbatim>\<open>TahliaCore\<close> it does (\<open>core_capture_restore_roundtrip\<close>). In
  \<^verbatim>\<open>TahliaBridge\<close> it does not when the capture fails: where the host does not
  expose \<^verbatim>\<open>selected_objects\<close> the capture returns the empty snapshot, and
  \<^verbatim>\<open>restore_context\<close> hands the default \<^verbatim>\<open>[]\<close> for the missing
  \<^verbatim>\<open>visible_collections\<close> to \<^verbatim>\<open>_restore_visible_collections\<close>, which hides every
  collection and returns true. \<^verbatim>\<open>TahliaCore\<close> leaves the same host untouched.
\<close>

theorem capture_restore_hides_collections:
  "fst (bridge_capture_context bridge0 restricted_scene) = empty_ctx \<and>
   visible_names (scene_children restricted_scene) = [''Props'', ''Lights''] \<and>
   fst (bridge_restore_context (snd (bridge_capture_context bridge0 restricted_scene))
          (fst (bridge_capture_context bridge0 restricted_scene)) restricted_scene) = True \<and>
   visible_names (scene_children (snd (snd
     (bridge_restore_context (snd (bridge_capture_context bridge0 restricted_scene))
        (fst (bridge_capture_context bridge0 restricted_scene)) restricted_scene)))) = [] \<and>
   core_capture_context restricted_scene = empty_ctx \<and>
   core_restore_context (core_capture_context restricted_scene) restricted_scene
     = (True, restricted_scene)"
  by (simp add: bridge_capture_context_def bridge_capture_body_def try_bind_def
        core_capture_context_def core_capture_body_def
        core_restore_context_def core_restore_body_def core_restore_selected_def
        core_restore_viewport_def truthy_viewport_def
        read_selected_objects_def visible_names_def
        bridge_restore_context_def bridge_restore_body_def seq_def restore_active_def
        bridge_restore_selected_def restore_mode_def
        restore_viewport_settings_def restore_visible_collections_def get_viewport_settings_def
        get_visible_collections_def read_collections_def read_active_object_def guard_def
        has_shading_def truthy_def
        empty_ctx_def scene0_def bridge0_def restricted_scene_def)

section \<open>Reads that fail during a capture\<close>

lemma bridge_capture_context_last_error:
  "snd (bridge_capture_context b h) =
     (case List.map_filter (map_of (raises h))
             [Read_selected_objects, Read_active_object, Read_view_layer, Read_mode,
              Read_is_rendering] of
        [] \<Rightarrow> b
      | msg # _ \<Rightarrow> b\<lparr>last_error := ''Failed to capture context: '' @ msg\<rparr>)"
  by (auto simp: bridge_capture_context_def bridge_capture_body_def try_bind_def guard_def
        read_selected_objects_def read_active_object_def read_view_layer_def read_mode_def
        read_is_rendering_def
        split: option.splits)

text \<open>
  C4, as amended. \<^verbatim>\<open>capture_context\<close> always returns a snapshot. In
  \<^verbatim>\<open>TahliaBridge\<close> a failed read of the viewport, of the collections or of the scene
  data only empties that one entry; but when the read of the selected objects, of the
  active object, of the view layer, of the mode or of the render flag fails, the result is
  the empty snapshot, with no entry at all, and \<^verbatim>\<open>last_error\<close> becomes
  \<^verbatim>\<open>Failed to capture context: \<close> followed by the message of the first read that
  failed (it is left as it was when none fails). In \<^verbatim>\<open>TahliaCore\<close> a failure of any
  of those five reads gives the empty snapshot as well.
\<close>

theorem capture_context_read_failures:
  "fst (bridge_capture_context b h) =
     (if \<forall>c \<in> {Read_selected_objects, Read_active_object, Read_view_layer, Read_mode,
                Read_is_rendering}. map_of (raises h) c = None
      then \<lparr>selected_objects = Some (sel_objects h),
            active_object = Some (case act_object h of None \<Rightarrow> [] | Some n \<Rightarrow> n),
            view_layer = Some (view_layer_name h),
            mode = Some (context_mode h),
            viewport_settings = Some
              \<lparr>vp_shading = space_shading h,
               vp_overlay =
                 map_option (\<lambda>w. if w then ''WIREFRAME'' else ''SOLID'') (space_wireframes h)\<rparr>,
            visible_collections = Some
              (if map_of (raises h) Read_collections = None then visible_names (scene_children h)
               else []),
            is_rendering = Some (render_is_rendering h),
            custom_state = Some
              (if map_of (raises h) Read_scene = None
               then [(''scene_name'', scene_name h),
                     (''frame_current'', str_int (scene_frame_current h)),
                     (''render_engine'', render_engine h)]
               else [])\<rparr>
      else empty_ctx) \<and>
   snd (bridge_capture_context b h) =
     (case List.map_filter (map_of (raises h))
             [Read_selected_objects, Read_active_object, Read_view_layer, Read_mode,
              Read_is_rendering] of
        [] \<Rightarrow> b
      | msg # _ \<Rightarrow> b\<lparr>last_error := ''Failed to capture context: '' @ msg\<rparr>) \<and>
   ((\<exists>c \<in> {Read_selected_objects, Read_active_object, Read_view_layer, Read_mode,
              Read_is_rendering}. map_of (raises h) c \<noteq> None) \<longrightarrow>
      core_capture_context h = empty_ctx) \<and>
   ((\<forall>c \<in> {Read_selected_objects, Read_active_object, Read_view_layer, Read_mode,
              Read_collections, Read_is_rendering}. map_of (raises h) c = None) \<and>
    space_wireframes h \<noteq> None \<longrightarrow>
      core_capture_context h =
         \<lparr>selected_objects = Some (sel_objects h),
            active_object = Some (case act_object h of None \<Rightarrow> [] | Some n \<Rightarrow> n),
            view_layer = Some (view_layer_name h),
            mode = Some (context_mode h),
            viewport_settings = Some
              \<lparr>vp_shading = Some (case space_shading h of Some s \<Rightarrow> s | None \<Rightarrow> ''SOLID''),
               vp_overlay = Some (if the (space_wireframes h) then ''WIREFRAME'' else ''SOLID'')\<rparr>,
            visible_collections = Some (visible_names (scene_children h)),
            is_rendering = Some (render_is_rendering h),
            custom_state = Some []\<rparr>)"
proof -
  have bridge: "fst (bridge_capture_context b h) =
     (if \<forall>c \<in> {Read_selected_objects, Read_active_object, Read_view_layer, Read_mode,
                Read_is_rendering}. map_of (raises h) c = None
      then \<lparr>selected_objects = Some (sel_objects h),
            active_object = Some (case act_object h of None \<Rightarrow> [] | Some n \<Rightarrow> n),
            view_layer = Some (view_layer_name h),
            mode = Some (context_mode h),
            viewport_settings = Some
              \<lparr>vp_shading = space_shading h,
               vp_overlay =
                 map_option (\<lambda>w. if w then ''WIREFRAME'' else ''SOLID'') (space_wireframes h)\<rparr>,
            visible_collections = Some
              (if map_of (raises h) Read_collections = None then visible_names (scene_children h)
               else []),
            is_rendering = Some (render_is_rendering h),
            custom_state = Some
              (if map_of (raises h) Read_scene = None
               then [(''scene_name'', scene_name h),
                     (''frame_current'', str_int (scene_frame_current h)),
                     (''render_engine'', render_engine h)]
               else [])\<rparr>
      else empty_ctx)"
    by (auto simp: bridge_capture_context_def bridge_capture_body_def try_bind_def guard_def
          read_selected_objects_def read_active_object_def read_view_layer_def read_mode_def
          read_collections_def read_is_rendering_def read_wireframes_def read_scene_def
          capture_viewport_settings_def capture_visible_collections_def capture_custom_state_def
          split: option.splits)
  have core_fail: "((\<exists>c \<in> {Read_selected_objects, Read_active_object, Read_view_layer, Read_mode,
              Read_is_rendering}. map_of (raises h) c \<noteq> None) \<longrightarrow>
      core_capture_context h = empty_ctx)"
    by (auto simp: core_capture_context_def core_capture_body_def try_bind_def guard_def
          read_selected_objects_def read_active_object_def read_view_layer_def read_mode_def
          read_collections_def read_is_rendering_def read_wireframes_def
          split: option.splits)
  have core_ok: "((\<forall>c \<in> {Read_selected_objects, Read_active_object, Read_view_layer, Read_mode,
              Read_collections, Read_is_rendering}. map_of (raises h) c = None) \<and>
    space_wireframes h \<noteq> None \<longrightarrow>
      core_capture_context h =
         \<lparr>selected_objects = Some (sel_objects h),
            active_object = Some (case act_object h of None \<Rightarrow> [] | Some n \<Rightarrow> n),
            view_layer = Some (view_layer_name h),
            mode = Some (context_mode h),
            viewport_settings = Some
              \<lparr>vp_shading = Some (case space_shading h of Some s \<Rightarrow> s | None \<Rightarrow> ''SOLID''),
               vp_overlay = Some (if the (space_wireframes h) then ''WIREFRAME'' else ''SOLID'')\<rparr>,
            visible_collections = Some (visible_names (scene_children h)),
            is_rendering = Some (render_is_rendering h),
            custom_state = Some []\<rparr>)"
    by (auto simp: core_capture_context_def core_capture_body_def try_bind_def guard_def
          read_selected_objects_def read_active_object_def read_view_layer_def read_mode_def
          read_collections_def read_is_rendering_def read_wireframes_def
          split: option.splits)
  from bridge bridge_capture_context_last_error [of b h] core_fail core_ok
  show ?thesis by (intro conjI)
qed

theorem capture_context_read_failures_witness:
  "raises scene0 = [] \<and>
   space_wireframes scene0 = Some False \<and>
   selected_objects (core_capture_context scene0) = Some [''TestCone''] \<and>
   visible_collections (core_capture_context scene0) = Some [''Props'', ''Lights''] \<and>
   selected_objects (fst (bridge_capture_context bridge0 scene0)) = Some [''TestCone''] \<and>
   viewport_settings (fst (bridge_capture_context bridge0 text_editor_scene)) =
     Some \<lparr>vp_shading = None, vp_overlay = None\<rparr> \<and>
   selected_objects (fst (bridge_capture_context bridge0 text_editor_scene)) = Some [''TestCone''] \<and>
   map_of (raises restricted_scene) Read_selected_objects =
     Some ''Context object has no attribute selected_objects'' \<and>
   core_capture_context restricted_scene = empty_ctx \<and>
   fst (bridge_capture_context bridge0 restricted_scene) = empty_ctx \<and>
   snd (bridge_capture_context bridge0 restricted_scene) =
     bridge0\<lparr>last_error :=
       ''Failed to capture context: Context object has no attribute selected_objects''\<rparr> \<and>
   snd (bridge_capture_context bridge0 scene0) = bridge0 \<and>
   snd (bridge_capture_context bridge0 text_editor_scene) = bridge0"
  using capture_context_read_failures [of bridge0 scene0]
        capture_context_read_failures [of bridge0 text_editor_scene]
        capture_context_read_failures [of bridge0 restricted_scene]
  by (simp add: scene0_def text_editor_scene_def restricted_scene_def visible_names_def)

text \<open>
  C4, as stated, fails in both classes: where the host does not expose
  \<^verbatim>\<open>selected_objects\<close>, the active object, the mode and the collections can still be
  read, yet the snapshot returned has none of them.
\<close>

theorem capture_context_loses_all_fields:
  "read_selected_objects restricted_scene =
     Inl (Exception ''Context object has no attribute selected_objects'') \<and>
   read_active_object restricted_scene = Inr (Some ''TestCone'') \<and>
   read_mode restricted_scene = Inr ''OBJECT'' \<and>
   read_collections restricted_scene = Inr [(''Props'', False), (''Lights'', False)] \<and>
   active_object (core_capture_context restricted_scene) = None \<and>
   mode (core_capture_context restricted_scene) = None \<and>
   visible_collections (core_capture_context restricted_scene) = None \<and>
   active_object (fst (bridge_capture_context bridge0 restricted_scene)) = None \<and>
   mode (fst (bridge_capture_context bridge0 restricted_scene)) = None \<and>
   visible_collections (fst (bridge_capture_context bridge0 restricted_scene)) = None"
  by (simp add: core_capture_context_def core_capture_body_def bridge_capture_context_def
        bridge_capture_body_def try_bind_def read_selected_objects_def read_active_object_def
        read_mode_def read_collections_def guard_def
        empty_ctx_def scene0_def bridge0_def restricted_scene_def)

end
